theory Spec2Isabelle
  imports Main "HOL-Library.AList"
begin

section \<open>Python values\<close>

text \<open>
  The orchestration core passes untyped dictionaries (\<^verbatim>\<open>Dict[str, Any]\<close>) between the
  engine, the agents and the callers. The code only ever tests such a value for
  truthiness, formats it with \<^verbatim>\<open>str()\<close> or stores it, so a value is modelled by
  exactly these observations. \<open>PyObj t b s\<close> is any other object, of type name \<open>t\<close>,
  truthiness \<open>b\<close> and \<^verbatim>\<open>str()\<close> image \<open>s\<close>.

  Time is an integer number of seconds. A method that does not suspend reads the clock
  (\<^verbatim>\<open>datetime.utcnow()\<close>) as one instant \<open>now\<close>, passed as an argument.
\<close>

datatype pyval = PyNone | PyBool bool | PyStr string | PyObj string bool string

type_synonym pydict = "string \<rightharpoonup> pyval"

fun truthy :: "pyval \<Rightarrow> bool" where
  "truthy PyNone = False"
| "truthy (PyBool b) = b"
| "truthy (PyStr s) = (s \<noteq> [])"
| "truthy (PyObj t b s) = b"

fun py_str :: "pyval \<Rightarrow> string" where
  "py_str PyNone = ''None''"
| "py_str (PyBool b) = (if b then ''True'' else ''False'')"
| "py_str (PyStr s) = s"
| "py_str (PyObj t b s) = s"

fun py_type_name :: "pyval \<Rightarrow> string" where
  "py_type_name PyNone = ''NoneType''"
| "py_type_name (PyBool b) = ''bool''"
| "py_type_name (PyStr s) = ''str''"
| "py_type_name (PyObj t b s) = t"

text \<open>\<^verbatim>\<open>d.get(key, default)\<close>\<close>

definition dict_get :: "pydict \<Rightarrow> string \<Rightarrow> pyval \<Rightarrow> pyval" where
  "dict_get d k dflt = (case d k of None \<Rightarrow> dflt | Some v \<Rightarrow> v)"

section \<open>Agent models (\<^verbatim>\<open>models/agent_models.py\<close>)\<close>

datatype AgentStatus = IDLE | PROCESSING | WAITING | ERROR | COMPLETED

record AgentContext =
  ctx_agent_id :: string
  ctx_session_id :: string
  ctx_user_id :: string
  ctx_company_id :: string
  ctx_permissions :: "string list"
  ctx_state :: pydict
  ctx_trace_id :: "int option"
  ctx_created_at :: int

text \<open>One entry of \<^verbatim>\<open>ApprovalRequest.approvals\<close>, as \<^verbatim>\<open>approve_request\<close> builds it.\<close>

record Approval =
  approver_id :: string
  approved :: bool
  comments :: "string option"
  timestamp :: int

record ApprovalRequest =
  ar_id :: string
  ar_workflow_id :: string
  ar_agent_id :: string
  ar_request_type :: string
  ar_description :: string
  ar_data :: pydict
  required_approvers :: "string list"
  approvals :: "Approval list"
  ar_status :: string
  ar_created_at :: int
  expires_at :: "int option"

text \<open>
  \<^verbatim>\<open>ApprovalRequest.is_approved\<close>: true when nobody is required, otherwise when every
  required approver occurs among the approvers of the entries with \<^verbatim>\<open>approved\<close> set.
\<close>

definition is_approved :: "ApprovalRequest \<Rightarrow> bool" where
  "is_approved r =
     (if required_approvers r = [] then True
      else list_all (\<lambda>a. a \<in> set (map approver_id (filter approved (approvals r))))
             (required_approvers r))"

text \<open>\<^verbatim>\<open>ApprovalRequest.is_expired\<close>, at the instant \<open>now\<close>.\<close>

definition is_expired :: "ApprovalRequest \<Rightarrow> int \<Rightarrow> bool" where
  "is_expired r now = (case expires_at r of None \<Rightarrow> False | Some e \<Rightarrow> now > e)"

record WorkflowState =
  ws_workflow_id :: string
  ws_workflow_type :: string
  current_step :: string
  steps_completed :: "string list"
  pending_approvals :: "ApprovalRequest list"
  ws_data :: pydict
  ws_context :: "AgentContext option"
  ws_status :: AgentStatus
  ws_error :: "string option"
  ws_created_at :: int
  updated_at :: int

text \<open>
  \<^verbatim>\<open>WorkflowState.add_approval_request\<close>. The fresh \<^verbatim>\<open>uuid4\<close> of the request is the
  argument \<open>new_id\<close>; \<^verbatim>\<open>if expires_in_minutes:\<close> is false for \<^verbatim>\<open>None\<close> and for 0.
  The new request is returned together with the updated state.
\<close>

definition add_approval_request ::
  "WorkflowState \<Rightarrow> string \<Rightarrow> string \<Rightarrow> string \<Rightarrow> pydict \<Rightarrow> string list \<Rightarrow> int option
     \<Rightarrow> string \<Rightarrow> int \<Rightarrow> ApprovalRequest \<times> WorkflowState" where
  "add_approval_request ws agent rtype descr dat required expires_in_minutes new_id now =
     (let exp = (case expires_in_minutes of
                   None \<Rightarrow> None
                 | Some m \<Rightarrow> if m = 0 then None else Some (now + 60 * m));
          approval_request =
            \<lparr> ar_id = new_id, ar_workflow_id = ws_workflow_id ws, ar_agent_id = agent,
              ar_request_type = rtype, ar_description = descr, ar_data = dat,
              required_approvers = required, approvals = [], ar_status = ''pending'',
              ar_created_at = now, expires_at = exp \<rparr>
      in (approval_request,
          ws \<lparr> pending_approvals := pending_approvals ws @ [approval_request],
               updated_at := now \<rparr>))"

text \<open>
  The body of the loop of \<^verbatim>\<open>approve_request\<close> for the request that matches: the
  decision is appended, then the status is set.
\<close>

definition record_decision ::
  "ApprovalRequest \<Rightarrow> string \<Rightarrow> bool \<Rightarrow> string option \<Rightarrow> int \<Rightarrow> ApprovalRequest" where
  "record_decision request approver appr com now =
     (let approval = \<lparr> approver_id = approver, approved = appr, comments = com,
                       timestamp = now \<rparr>;
          r1 = request \<lparr> approvals := approvals request @ [approval] \<rparr>
      in if appr \<and> is_approved r1 then r1 \<lparr> ar_status := ''approved'' \<rparr>
         else if \<not> appr then r1 \<lparr> ar_status := ''rejected'' \<rparr>
         else r1)"

text \<open>
  The loop \<^verbatim>\<open>for request in self.pending_approvals\<close>: the first request with the id
  takes the decision and the loop returns; \<open>None\<close> when the list is exhausted.
\<close>

fun approve_in_list ::
  "ApprovalRequest list \<Rightarrow> string \<Rightarrow> string \<Rightarrow> bool \<Rightarrow> string option \<Rightarrow> int
     \<Rightarrow> ApprovalRequest list option" where
  "approve_in_list [] request_id approver appr com now = None"
| "approve_in_list (r # rs) request_id approver appr com now =
     (if ar_id r = request_id then Some (record_decision r approver appr com now # rs)
      else (case approve_in_list rs request_id approver appr com now of
              None \<Rightarrow> None
            | Some rs' \<Rightarrow> Some (r # rs')))"

text \<open>\<^verbatim>\<open>WorkflowState.approve_request\<close>: the returned flag and the state after the call.\<close>

definition approve_request ::
  "WorkflowState \<Rightarrow> string \<Rightarrow> string \<Rightarrow> bool \<Rightarrow> string option \<Rightarrow> int \<Rightarrow> bool \<times> WorkflowState" where
  "approve_request ws request_id approver appr com now =
     (case approve_in_list (pending_approvals ws) request_id approver appr com now of
        None \<Rightarrow> (False, ws)
      | Some rs \<Rightarrow> (True, ws \<lparr> pending_approvals := rs, updated_at := now \<rparr>))"

text \<open>\<^verbatim>\<open>WorkflowState.get_pending_approvals\<close>\<close>

definition get_pending_approvals :: "WorkflowState \<Rightarrow> int \<Rightarrow> ApprovalRequest list" where
  "get_pending_approvals ws now =
     filter (\<lambda>req. ar_status req = ''pending'' \<and> \<not> is_expired req now) (pending_approvals ws)"

text \<open>\<^verbatim>\<open>WorkflowState.complete_step\<close>, \<^verbatim>\<open>set_error\<close>, \<^verbatim>\<open>set_status\<close>\<close>

definition complete_step :: "WorkflowState \<Rightarrow> string \<Rightarrow> int \<Rightarrow> WorkflowState" where
  "complete_step ws step_name now =
     (if step_name \<notin> set (steps_completed ws)
      then ws \<lparr> steps_completed := steps_completed ws @ [step_name], updated_at := now \<rparr>
      else ws \<lparr> updated_at := now \<rparr>)"

definition set_error :: "WorkflowState \<Rightarrow> string \<Rightarrow> int \<Rightarrow> WorkflowState" where
  "set_error ws error_message now =
     ws \<lparr> ws_error := Some error_message, ws_status := ERROR, updated_at := now \<rparr>"

definition set_status :: "WorkflowState \<Rightarrow> AgentStatus \<Rightarrow> int \<Rightarrow> WorkflowState" where
  "set_status ws st now = ws \<lparr> ws_status := st, updated_at := now \<rparr>"

section \<open>Workflow definitions (\<^verbatim>\<open>orchestrator/workflow_engine.py\<close>)\<close>

datatype WorkflowStepType = AGENT_TASK | APPROVAL | CONDITION | PARALLEL | SEQUENTIAL

text \<open>
  \<^verbatim>\<open>WorkflowStep\<close>: the definition fields. The bookkeeping fields of a step (\<^verbatim>\<open>status\<close>,
  \<^verbatim>\<open>result\<close>, \<^verbatim>\<open>error\<close>, \<^verbatim>\<open>started_at\<close>, \<^verbatim>\<open>completed_at\<close>) are written by the engine and
  read by nothing in it; they are left out.
\<close>

record WorkflowStep =
  step_id :: string
  step_type :: WorkflowStepType
  step_name :: string
  step_description :: string
  step_agent_id :: "string option"
  parameters :: pydict
  conditions :: pydict
  timeout_minutes :: "int option"

record WorkflowDefinition =
  wd_workflow_id :: string
  wd_name :: string
  wd_description :: string
  wd_workflow_type :: string
  steps :: "string \<rightharpoonup> WorkflowStep"
  step_order :: "string list"
  dependencies :: "string \<rightharpoonup> string list"

text \<open>\<^verbatim>\<open>WorkflowStep.__init__\<close> with the defaults of its optional arguments.\<close>

definition new_step ::
  "string \<Rightarrow> WorkflowStepType \<Rightarrow> string \<Rightarrow> string \<Rightarrow> string option \<Rightarrow> int option \<Rightarrow> WorkflowStep" where
  "new_step sid ty nm descr agent tmo =
     \<lparr> step_id = sid, step_type = ty, step_name = nm, step_description = descr,
       step_agent_id = agent, parameters = Map.empty, conditions = Map.empty,
       timeout_minutes = tmo \<rparr>"

text \<open>\<^verbatim>\<open>WorkflowDefinition.__init__\<close>\<close>

definition new_definition :: "string \<Rightarrow> string \<Rightarrow> string \<Rightarrow> string \<Rightarrow> WorkflowDefinition" where
  "new_definition wid nm descr wtype =
     \<lparr> wd_workflow_id = wid, wd_name = nm, wd_description = descr, wd_workflow_type = wtype,
       steps = Map.empty, step_order = [], dependencies = Map.empty \<rparr>"

text \<open>
  \<^verbatim>\<open>WorkflowDefinition.add_step\<close>. \<^verbatim>\<open>if dependencies:\<close> is false for \<^verbatim>\<open>None\<close> and for the
  empty list. Nothing is checked: neither that the id is new nor that a prerequisite
  names a step.
\<close>

definition add_step ::
  "WorkflowDefinition \<Rightarrow> WorkflowStep \<Rightarrow> string list option \<Rightarrow> WorkflowDefinition" where
  "add_step d step deps =
     (let d1 = d \<lparr> steps := (steps d)(step_id step \<mapsto> step),
                   step_order := step_order d @ [step_id step] \<rparr>
      in case deps of
           None \<Rightarrow> d1
         | Some ds \<Rightarrow> if ds = [] then d1
                     else d1 \<lparr> dependencies := (dependencies d1)(step_id step \<mapsto> ds) \<rparr>)"

text \<open>\<^verbatim>\<open>self.dependencies.get(step_id, [])\<close>\<close>

definition deps_of :: "WorkflowDefinition \<Rightarrow> string \<Rightarrow> string list" where
  "deps_of d sid = (case dependencies d sid of None \<Rightarrow> [] | Some ds \<Rightarrow> ds)"

datatype py_error = KeyError string

text \<open>
  The loop of \<^verbatim>\<open>get_ready_steps\<close> over \<^verbatim>\<open>step_order\<close>, with the list \<^verbatim>\<open>ready_steps\<close>
  built so far. \<^verbatim>\<open>self.steps[step_id]\<close> raises \<^verbatim>\<open>KeyError\<close> for an id without a step.
\<close>

fun ready_loop ::
  "WorkflowDefinition \<Rightarrow> string list \<Rightarrow> string list \<Rightarrow> WorkflowStep list
     \<Rightarrow> py_error + WorkflowStep list" where
  "ready_loop d completed [] ready_steps = Inr ready_steps"
| "ready_loop d completed (sid # rest) ready_steps =
     (if sid \<in> set completed then ready_loop d completed rest ready_steps
      else if list_all (\<lambda>dep. dep \<in> set completed) (deps_of d sid)
      then (case steps d sid of
              None \<Rightarrow> Inl (KeyError sid)
            | Some step \<Rightarrow> ready_loop d completed rest (ready_steps @ [step]))
      else ready_loop d completed rest ready_steps)"

definition get_ready_steps ::
  "WorkflowDefinition \<Rightarrow> string list \<Rightarrow> py_error + WorkflowStep list" where
  "get_ready_steps d completed_steps = ready_loop d completed_steps (step_order d) []"

text \<open>
  The two workflows of \<^verbatim>\<open>WorkflowEngine._initialize_builtin_workflows\<close>.
\<close>

definition advisory_workflow :: WorkflowDefinition where
  "advisory_workflow =
     add_step
      (add_step
        (add_step
          (add_step
            (add_step
              (new_definition ''advisory_ceo_support'' ''CEO Advisory Workflow''
                 ''Complete advisory workflow for CEO decision support'' ''advisory'')
              (new_step ''data_sync'' AGENT_TASK ''Data Synchronization''
                 ''Sync latest financial data from all sources'' (Some ''data_sync_agent'')
                 (Some 10)) None)
            (new_step ''financial_analysis'' AGENT_TASK ''Financial Analysis''
               ''Perform comprehensive financial analysis'' (Some ''ai_cfo_agent'') (Some 15))
            (Some [''data_sync'']))
          (new_step ''forecasting'' AGENT_TASK ''Financial Forecasting''
             ''Generate financial forecasts and projections'' (Some ''forecasting_agent'')
             (Some 20))
          (Some [''financial_analysis'']))
        (new_step ''risk_assessment'' AGENT_TASK ''Risk Assessment''
           ''Assess financial risks and opportunities'' (Some ''alert_agent'') (Some 10))
        (Some [''financial_analysis'']))
      (new_step ''executive_reporting'' AGENT_TASK ''Executive Reporting''
         ''Generate executive summary and recommendations'' (Some ''reporting_agent'')
         (Some 15))
      (Some [''forecasting'', ''risk_assessment''])"

definition transactional_workflow :: WorkflowDefinition where
  "transactional_workflow =
     add_step
      (add_step
        (add_step
          (add_step
            (add_step
              (add_step
                (new_definition ''transactional_automation''
                   ''Transactional Automation Workflow''
                   ''Complete transactional processing workflow'' ''transactional'')
                (new_step ''document_processing'' AGENT_TASK ''Document Processing''
                   ''OCR and document data extraction'' (Some ''ocr_agent'') (Some 5)) None)
              (new_step ''data_standardization'' AGENT_TASK ''Data Standardization''
                 ''Standardize and validate extracted data'' (Some ''data_sync_agent'')
                 (Some 5))
              (Some [''document_processing'']))
            (new_step ''accounting_entries'' AGENT_TASK ''Accounting Entries''
               ''Create automated accounting entries'' (Some ''accounting_agent'') (Some 10))
            (Some [''data_standardization'']))
          (new_step ''approval_check'' APPROVAL ''Transaction Approval''
             ''Human approval for high-value transactions'' None (Some 60))
          (Some [''accounting_entries'']))
        (new_step ''reconciliation'' AGENT_TASK ''Bank Reconciliation''
           ''Reconcile transactions with bank statements'' (Some ''reconciliation_agent'')
           (Some 15))
        (Some [''approval_check'']))
      (new_step ''compliance_audit'' AGENT_TASK ''Compliance Audit''
         ''Validate compliance and create audit trail'' (Some ''compliance_agent'') (Some 10))
      (Some [''reconciliation''])"

subsection \<open>Walking a definition layer by layer\<close>

text \<open>
  Marking the steps of a ready set complete, as \<^verbatim>\<open>complete_step\<close> does on
  \<^verbatim>\<open>steps_completed\<close>: an id is appended unless it is there already.
\<close>

fun mark_complete :: "string list \<Rightarrow> WorkflowStep list \<Rightarrow> string list" where
  "mark_complete completed [] = completed"
| "mark_complete completed (st # sts) =
     mark_complete (if step_id st \<in> set completed then completed else completed @ [step_id st])
       sts"

text \<open>
  Taking the ready set and marking its steps complete, until the ready set is empty (or
  \<^verbatim>\<open>get_ready_steps\<close> raises). The result is the sequence of the steps visited so far,
  \<open>visited\<close>, extended by every later ready set; \<open>None\<close> when the walk never ends.
\<close>

partial_function (option) visit_steps ::
  "WorkflowDefinition \<Rightarrow> string list \<Rightarrow> WorkflowStep list \<Rightarrow> WorkflowStep list option" where
  "visit_steps d completed visited =
     (case get_ready_steps d completed of
        Inl e \<Rightarrow> Some visited
      | Inr ready \<Rightarrow>
          if ready = [] then Some visited
          else visit_steps d (mark_complete completed ready) (visited @ ready))"

declare visit_steps.simps [code]

text \<open>
  Properties of a definition that \<^verbatim>\<open>add_step\<close> does not enforce. \<open>registered\<close>: every id
  of \<^verbatim>\<open>step_order\<close> has its step stored under that id (true of every definition built
  by \<^verbatim>\<open>add_step\<close>). \<open>closed_deps\<close>: every prerequisite names a step. \<open>dep_rel\<close>: the
  prerequisite edges, as pairs (prerequisite, step).
\<close>

definition registered :: "WorkflowDefinition \<Rightarrow> bool" where
  "registered d =
     list_all (\<lambda>sid. case steps d sid of None \<Rightarrow> False | Some st \<Rightarrow> step_id st = sid)
       (step_order d)"

definition closed_deps :: "WorkflowDefinition \<Rightarrow> bool" where
  "closed_deps d =
     list_all (\<lambda>sid. list_all (\<lambda>dep. dep \<in> set (step_order d)) (deps_of d sid)) (step_order d)"

definition dep_rel :: "WorkflowDefinition \<Rightarrow> (string \<times> string) set" where
  "dep_rel d = set (concat (map (\<lambda>sid. map (\<lambda>dep. (dep, sid)) (deps_of d sid)) (step_order d)))"

text \<open>The test of \<^verbatim>\<open>get_ready_steps\<close> on one id.\<close>

definition is_ready :: "WorkflowDefinition \<Rightarrow> string list \<Rightarrow> string \<Rightarrow> bool" where
  "is_ready d completed sid =
     (sid \<notin> set completed \<and> list_all (\<lambda>dep. dep \<in> set completed) (deps_of d sid))"

section \<open>Workflow engine (\<^verbatim>\<open>orchestrator/workflow_engine.py\<close>)\<close>

text \<open>
  The engine suspends in two places: in the call of the injected \<^verbatim>\<open>agent_executor\<close> and
  in \<^verbatim>\<open>asyncio.sleep(1)\<close> of the approval wait. Everything outside the engine is a world
  \<open>'w\<close> with four operations: reading the clock, drawing a \<^verbatim>\<open>uuid4\<close>, running the agent
  executor, and sleeping. While the engine sleeps other coroutines run; what they do to
  the workflow state is the list of \<^verbatim>\<open>approve_request\<close> calls that \<open>sleep\<close> returns.
  Tracing and logging are left out. A call into an agent either raises or returns a
  value, which is a dictionary or something else.
\<close>

datatype pyresult = Dict pydict | Other pyval

datatype invoke_outcome = Returned pyresult | Raised string

record step_request =
  sr_step_name :: string
  sr_step_description :: string
  sr_parameters :: pydict
  sr_workflow_data :: pydict

record decision =
  d_request_id :: string
  d_approver_id :: string
  d_approved :: bool
  d_comments :: "string option"
  d_time :: int

record 'w environment =
  clock :: "'w \<Rightarrow> int"
  uuid4 :: "'w \<Rightarrow> string \<times> 'w"
  agent_executor ::
    "string option \<Rightarrow> step_request \<Rightarrow> AgentContext option \<Rightarrow> 'w \<Rightarrow> invoke_outcome \<times> 'w"
  sleep :: "'w \<Rightarrow> decision list \<times> 'w"

fun apply_decisions :: "WorkflowState \<Rightarrow> decision list \<Rightarrow> WorkflowState" where
  "apply_decisions ws [] = ws"
| "apply_decisions ws (dc # dcs) =
     apply_decisions
       (snd (approve_request ws (d_request_id dc) (d_approver_id dc) (d_approved dc)
               (d_comments dc) (d_time dc)))
       dcs"

text \<open>The dictionary \<^verbatim>\<open>{"success": False, "error": msg}\<close>.\<close>

definition failure_result :: "string \<Rightarrow> pydict" where
  "failure_result msg = [''success'' \<mapsto> PyBool False, ''error'' \<mapsto> PyStr msg]"

text \<open>
  \<^verbatim>\<open>_execute_agent_step\<close>. A result that is no dictionary makes \<^verbatim>\<open>result.get\<close> raise
  \<^verbatim>\<open>AttributeError\<close> inside the \<^verbatim>\<open>try\<close>, so it ends in the \<^verbatim>\<open>except\<close> branch as a raised
  exception does.
\<close>

definition execute_agent_step ::
  "'w environment \<Rightarrow> WorkflowStep \<Rightarrow> WorkflowState \<Rightarrow> 'w \<Rightarrow> pydict \<times> 'w" where
  "execute_agent_step env step ws w =
     (let request = \<lparr> sr_step_name = step_name step,
                      sr_step_description = step_description step,
                      sr_parameters = parameters step,
                      sr_workflow_data = ws_data ws \<rparr>
      in case agent_executor env (step_agent_id step) request (ws_context ws) w of
           (Returned (Dict result), w') \<Rightarrow> (result, w')
         | (Returned (Other v), w') \<Rightarrow>
             (failure_result
                ([CHR 0x27] @ py_type_name v @ [CHR 0x27] @ '' object has no attribute ''
                   @ [CHR 0x27] @ ''get'' @ [CHR 0x27]), w')
         | (Raised e, w') \<Rightarrow> (failure_result e, w'))"

text \<open>The three dictionaries that \<^verbatim>\<open>_execute_approval_step\<close> returns.\<close>

definition approved_result :: "string \<Rightarrow> pydict" where
  "approved_result rid =
     [''success'' \<mapsto> PyBool True, ''approved'' \<mapsto> PyBool True, ''approval_id'' \<mapsto> PyStr rid]"

definition rejected_result :: "string \<Rightarrow> pydict" where
  "rejected_result rid =
     [''success'' \<mapsto> PyBool False, ''error'' \<mapsto> PyStr ''Approval rejected'',
      ''approval_id'' \<mapsto> PyStr rid]"

definition timeout_result :: "string \<Rightarrow> pydict" where
  "timeout_result rid =
     [''success'' \<mapsto> PyBool False, ''error'' \<mapsto> PyStr ''Approval timeout'',
      ''approval_id'' \<mapsto> PyStr rid]"

text \<open>
  The polling loop \<^verbatim>\<open>while datetime.utcnow() < timeout\<close>. The request object that the
  step holds is the element of \<^verbatim>\<open>pending_approvals\<close> at position \<open>idx\<close> (the list only
  grows at its end). \<open>None\<close> when the loop never ends.
\<close>

partial_function (option) approval_wait ::
  "'w environment \<Rightarrow> int \<Rightarrow> nat \<Rightarrow> WorkflowState \<Rightarrow> 'w \<Rightarrow> (pydict \<times> WorkflowState \<times> 'w) option"
  where
  "approval_wait env timeout idx ws w =
     (if clock env w < timeout then
        (if is_approved (pending_approvals ws ! idx)
         then Some (approved_result (ar_id (pending_approvals ws ! idx)), ws, w)
         else if ar_status (pending_approvals ws ! idx) = ''rejected''
         then Some (rejected_result (ar_id (pending_approvals ws ! idx)), ws, w)
         else approval_wait env timeout idx
                (apply_decisions ws (fst (sleep env w))) (snd (sleep env w)))
      else Some (timeout_result (ar_id (pending_approvals ws ! idx)), ws, w))"

declare approval_wait.simps [code]

text \<open>\<^verbatim>\<open>step.timeout_minutes or 60\<close>\<close>

definition timeout_or_60 :: "int option \<Rightarrow> int" where
  "timeout_or_60 t = (case t of None \<Rightarrow> 60 | Some m \<Rightarrow> if m = 0 then 60 else m)"

text \<open>
  \<^verbatim>\<open>_execute_approval_step\<close>: the request is created with the one required approver
  \<^verbatim>\<open>financial_manager\<close>, the deadline of the wait is computed from the clock, and the
  wait starts.
\<close>

definition execute_approval_step ::
  "'w environment \<Rightarrow> WorkflowStep \<Rightarrow> WorkflowState \<Rightarrow> 'w
     \<Rightarrow> (pydict \<times> WorkflowState \<times> 'w) option" where
  "execute_approval_step env step ws w =
     (let (new_id, w1) = uuid4 env w;
          (approval_request, ws1) =
             add_approval_request ws ''workflow_engine'' ''workflow_approval''
               (step_description step) (parameters step) [''financial_manager'']
               (timeout_minutes step) new_id (clock env w1);
          timeout = clock env w1 + 60 * timeout_or_60 (timeout_minutes step)
      in approval_wait env timeout (length (pending_approvals ws)) ws1 w1)"

text \<open>
  \<^verbatim>\<open>_execute_steps\<close>. A task is created for every agent step and every approval step;
  steps of the other three types get none. The tasks are coroutines, awaited one after the
  other in the order of the list, and \<^verbatim>\<open>results[step_id] = result\<close> keeps the position of
  a key that is already there. Both step functions catch every exception themselves.
\<close>

definition make_tasks :: "WorkflowStep list \<Rightarrow> WorkflowStep list" where
  "make_tasks sts = filter (\<lambda>st. step_type st = AGENT_TASK \<or> step_type st = APPROVAL) sts"

fun await_tasks ::
  "'w environment \<Rightarrow> WorkflowStep list \<Rightarrow> (string \<times> pydict) list \<Rightarrow> WorkflowState \<Rightarrow> 'w
     \<Rightarrow> ((string \<times> pydict) list \<times> WorkflowState \<times> 'w) option" where
  "await_tasks env [] results ws w = Some (results, ws, w)"
| "await_tasks env (st # tasks) results ws w =
     (if step_type st = AGENT_TASK then
        (case execute_agent_step env st ws w of
           (result, w') \<Rightarrow>
             await_tasks env tasks (AList.update (step_id st) result results) ws w')
      else
        (case execute_approval_step env st ws w of
           None \<Rightarrow> None
         | Some (result, ws', w') \<Rightarrow>
             await_tasks env tasks (AList.update (step_id st) result results) ws' w'))"

definition execute_steps ::
  "'w environment \<Rightarrow> WorkflowStep list \<Rightarrow> WorkflowState \<Rightarrow> 'w
     \<Rightarrow> ((string \<times> pydict) list \<times> WorkflowState \<times> 'w) option" where
  "execute_steps env sts ws w = await_tasks env (make_tasks sts) [] ws w"

text \<open>
  What \<^verbatim>\<open>execute_workflow\<close> returns. \<^verbatim>\<open>execution_time\<close> is a number of seconds.
\<close>

record workflow_result =
  wr_success :: bool
  wr_error :: "string option"
  wr_workflow_id :: "string option"
  wr_workflow_type :: "string option"
  wr_completed_steps :: "string list option"
  wr_failed_step :: "string option"
  wr_execution_time :: "int option"

text \<open>
  The loop \<^verbatim>\<open>for step_id, result in step_results.items()\<close>: \<open>Inl\<close> is the \<^verbatim>\<open>return\<close> at
  the first result that is no success, \<open>Inr\<close> the state after a loop that ran to its end.
\<close>

fun process_results ::
  "(string \<times> pydict) list \<Rightarrow> WorkflowState \<Rightarrow> int \<Rightarrow> (workflow_result \<times> WorkflowState) + WorkflowState"
  where
  "process_results [] ws now = Inr ws"
| "process_results ((sid, result) # rest) ws now =
     (if truthy (dict_get result ''success'' (PyBool False))
      then process_results rest (complete_step ws sid now) now
      else
        (let error_msg = dict_get result ''error'' (PyStr ''Step execution failed'');
             ws' = set_error ws (''Step '' @ sid @ '' failed: '' @ py_str error_msg) now
         in Inl (\<lparr> wr_success = False, wr_error = ws_error ws',
                    wr_workflow_id = Some (ws_workflow_id ws'), wr_workflow_type = None,
                    wr_completed_steps = None, wr_failed_step = Some sid,
                    wr_execution_time = None \<rparr>, ws')))"

text \<open>
  The loop \<^verbatim>\<open>while True\<close> of \<^verbatim>\<open>execute_workflow\<close>. It is left by \<^verbatim>\<open>break\<close> when no step is
  ready, by \<^verbatim>\<open>return\<close> at a failed step, or by the \<^verbatim>\<open>KeyError\<close> of \<^verbatim>\<open>get_ready_steps\<close>; it
  may also run forever. \<open>dispatched\<close> collects the ids of the tasks created so far.
\<close>

datatype loop_exit = Break | Return workflow_result | Raise py_error

partial_function (option) workflow_loop ::
  "'w environment \<Rightarrow> WorkflowDefinition \<Rightarrow> WorkflowState \<Rightarrow> 'w \<Rightarrow> string list
     \<Rightarrow> (loop_exit \<times> WorkflowState \<times> 'w \<times> string list) option" where
  "workflow_loop env d ws w dispatched =
     (case get_ready_steps d (steps_completed ws) of
        Inl e \<Rightarrow> Some (Raise e, ws, w, dispatched)
      | Inr ready_steps \<Rightarrow>
          if ready_steps = [] then Some (Break, ws, w, dispatched)
          else
            (case execute_steps env ready_steps ws w of
               None \<Rightarrow> None
             | Some (step_results, ws1, w1) \<Rightarrow>
                 (case process_results step_results ws1 (clock env w1) of
                    Inl (res, ws2) \<Rightarrow>
                      Some (Return res, ws2, w1,
                            dispatched @ map step_id (make_tasks ready_steps))
                  | Inr ws2 \<Rightarrow>
                      workflow_loop env d ws2 w1
                        (dispatched @ map step_id (make_tasks ready_steps)))))"

declare workflow_loop.simps [code]

text \<open>
  The state at the head of the loop after \<open>n\<close> iterations that all went on to the next:
  each found steps ready, ran them and found every result a success.
\<close>

fun after_layers ::
  "nat \<Rightarrow> 'w environment \<Rightarrow> WorkflowDefinition \<Rightarrow> WorkflowState \<Rightarrow> 'w \<Rightarrow> string list
     \<Rightarrow> (WorkflowState \<times> 'w \<times> string list) option" where
  "after_layers 0 env d ws w dispatched = Some (ws, w, dispatched)"
| "after_layers (Suc n) env d ws w dispatched =
     (case get_ready_steps d (steps_completed ws) of
        Inl e \<Rightarrow> None
      | Inr ready_steps \<Rightarrow>
          if ready_steps = [] then None
          else
            (case execute_steps env ready_steps ws w of
               None \<Rightarrow> None
             | Some (step_results, ws1, w1) \<Rightarrow>
                 (case process_results step_results ws1 (clock env w1) of
                    Inl a \<Rightarrow> None
                  | Inr ws2 \<Rightarrow>
                      after_layers n env d ws2 w1
                        (dispatched @ map step_id (make_tasks ready_steps)))))"

text \<open>
  \<^verbatim>\<open>WorkflowEngine\<close>. \<^verbatim>\<open>active_executions\<close> maps a workflow id to a reference to the state
  of the caller; the model keeps its keys.
\<close>

record WorkflowEngine =
  workflow_definitions :: "string \<rightharpoonup> WorkflowDefinition"
  active_executions :: "string set"

text \<open>\<^verbatim>\<open>str(e)\<close> of a \<^verbatim>\<open>KeyError\<close> is the \<^verbatim>\<open>repr\<close> of the key.\<close>

fun str_of_error :: "py_error \<Rightarrow> string" where
  "str_of_error (KeyError k) = [CHR 0x27] @ k @ [CHR 0x27]"

text \<open>
  \<^verbatim>\<open>WorkflowEngine.execute_workflow\<close>: the result, the engine and the workflow state after
  the call, the world, and the ids of all tasks created during the run.
\<close>

definition execute_workflow ::
  "WorkflowEngine \<Rightarrow> 'w environment \<Rightarrow> string \<Rightarrow> WorkflowState \<Rightarrow> 'w
     \<Rightarrow> (workflow_result \<times> WorkflowEngine \<times> WorkflowState \<times> 'w \<times> string list) option" where
  "execute_workflow engine env workflow_type ws w =
     (case workflow_definitions engine workflow_type of
        None \<Rightarrow>
          Some (\<lparr> wr_success = False,
                  wr_error = Some (''Unknown workflow type: '' @ workflow_type),
                  wr_workflow_id = None, wr_workflow_type = None,
                  wr_completed_steps = None, wr_failed_step = None,
                  wr_execution_time = None \<rparr>, engine, ws, w, [])
      | Some workflow_def \<Rightarrow>
          (let engine1 = engine \<lparr> active_executions :=
                                    insert (ws_workflow_id ws) (active_executions engine) \<rparr>;
               ws1 = set_status ws PROCESSING (clock env w);
               engine2 = engine1 \<lparr> active_executions :=
                                     active_executions engine1 - {ws_workflow_id ws} \<rparr>
           in case workflow_loop env workflow_def ws1 w [] of
                None \<Rightarrow> None
              | Some (Break, ws2, w2, dispatched) \<Rightarrow>
                  (let ws3 = set_status ws2 COMPLETED (clock env w2)
                   in Some (\<lparr> wr_success = True, wr_error = None,
                              wr_workflow_id = Some (ws_workflow_id ws3),
                              wr_workflow_type = Some workflow_type,
                              wr_completed_steps = Some (steps_completed ws3),
                              wr_failed_step = None,
                              wr_execution_time = Some (clock env w2 - ws_created_at ws3) \<rparr>,
                            engine2, ws3, w2, dispatched))
              | Some (Return res, ws2, w2, dispatched) \<Rightarrow>
                  Some (res, engine2, ws2, w2, dispatched)
              | Some (Raise e, ws2, w2, dispatched) \<Rightarrow>
                  (let ws3 = set_error ws2
                               (''Workflow execution failed: '' @ str_of_error e)
                               (clock env w2)
                   in Some (\<lparr> wr_success = False, wr_error = ws_error ws3,
                              wr_workflow_id = Some (ws_workflow_id ws3),
                              wr_workflow_type = None, wr_completed_steps = None,
                              wr_failed_step = None, wr_execution_time = None \<rparr>,
                            engine2, ws3, w2, dispatched))))"

text \<open>The test of the engine on one entry of \<^verbatim>\<open>step_results\<close>: the step did not succeed.\<close>

definition step_failed :: "string \<times> pydict \<Rightarrow> bool" where
  "step_failed p = (\<not> truthy (dict_get (snd p) ''success'' (PyBool False)))"




section \<open>Orchestrator (\<^verbatim>\<open>orchestrator/orchestrator.py\<close>)\<close>

text \<open>
  An agent is its \<^verbatim>\<open>invoke(request, context)\<close>. It runs in the world, and it can read
  the dispatch counter of the orchestrator (the orchestrator is a module-level global):
  the third argument is the value of \<^verbatim>\<open>_active_agent_count\<close> while the agent runs.
  Coroutines that other callers interleave with the call are outside the model.
\<close>

type_synonym 'w agent = "pyval \<Rightarrow> AgentContext option \<Rightarrow> int \<Rightarrow> 'w \<Rightarrow> invoke_outcome \<times> 'w"

record 'w AgentOrchestrator =
  agents :: "string \<rightharpoonup> 'w agent"
  active_workflows :: "string \<rightharpoonup> WorkflowState"
  max_concurrent_agents :: int
  active_agent_count :: int

text \<open>
  What \<^verbatim>\<open>_route_to_agent\<close> returns, tagged with the \<^verbatim>\<open>return\<close> statement it comes from;
  \<open>response\<close> is the dictionary itself.
\<close>

datatype route_result =
  NotFound pydict | CapacityExceeded pydict | AgentReturned pydict | AgentFailed pydict

fun response :: "route_result \<Rightarrow> pydict" where
  "response (NotFound r) = r"
| "response (CapacityExceeded r) = r"
| "response (AgentReturned r) = r"
| "response (AgentFailed r) = r"

definition error_response :: "string \<Rightarrow> string \<Rightarrow> pydict" where
  "error_response msg session =
     [''success'' \<mapsto> PyBool False, ''error'' \<mapsto> PyStr msg, ''session_id'' \<mapsto> PyStr session]"

text \<open>
  The \<^verbatim>\<open>try\<close> block of \<^verbatim>\<open>_route_to_agent\<close> without its \<^verbatim>\<open>finally\<close>: the agent runs while
  the counter has the value \<open>count\<close>; a result that is no dictionary is wrapped by
  \<^verbatim>\<open>_resolve_result\<close>.
\<close>

definition invoke_agent ::
  "'w agent \<Rightarrow> pyval \<Rightarrow> AgentContext \<Rightarrow> int \<Rightarrow> 'w \<Rightarrow> route_result \<times> 'w" where
  "invoke_agent agent request context count w =
     (case agent request (Some context) count w of
        (Returned (Dict result), w') \<Rightarrow> (AgentReturned result, w')
      | (Returned (Other v), w') \<Rightarrow>
          (AgentReturned [''success'' \<mapsto> PyBool True, ''result'' \<mapsto> v], w')
      | (Raised e, w') \<Rightarrow>
          (AgentFailed (error_response (''Agent execution failed: '' @ e)
                          (ctx_session_id context)), w'))"

text \<open>\<^verbatim>\<open>AgentOrchestrator._route_to_agent\<close>\<close>

definition route_to_agent ::
  "'w AgentOrchestrator \<Rightarrow> string \<Rightarrow> pyval \<Rightarrow> AgentContext \<Rightarrow> 'w
     \<Rightarrow> route_result \<times> 'w AgentOrchestrator \<times> 'w" where
  "route_to_agent orch agent_id request context w =
     (case agents orch agent_id of
        None \<Rightarrow>
          (NotFound (error_response
                       (''Agent '' @ [CHR 0x27] @ agent_id @ [CHR 0x27] @ '' not found'')
                       (ctx_session_id context)), orch, w)
      | Some agent \<Rightarrow>
          if active_agent_count orch \<ge> max_concurrent_agents orch
          then (CapacityExceeded (error_response ''Maximum concurrent agents reached''
                                    (ctx_session_id context)), orch, w)
          else
            (let orch1 = orch \<lparr> active_agent_count := active_agent_count orch + 1 \<rparr>;
                 (res, w') = invoke_agent agent request context (active_agent_count orch1) w;
                 orch2 = orch1 \<lparr> active_agent_count := active_agent_count orch1 - 1 \<rparr>
             in (res, orch2, w')))"

text \<open>
  The two workflows of the orchestrator are five blocks of one shape each:
  \<^verbatim>\<open>if "<agent>" in self.agents: r = await self.agents["<agent>"].invoke(<request>, context);
  results["<key>"] = r; workflow_state.complete_step("<step>")\<close>.
  A block is a row (agent, request, key, step); the request is a fixed text or the
  request of the workflow.
\<close>

datatype stage_request = Fixed string | WorkflowRequest

type_synonym stage = "string \<times> stage_request \<times> string \<times> string"

definition advisory_stages :: "stage list" where
  "advisory_stages =
     [(''data_sync_agent'', Fixed ''Sync latest financial data for analysis'',
         ''data_sync'', ''data_sync''),
      (''ai_cfo_agent'', WorkflowRequest, ''analysis'', ''analysis''),
      (''forecasting_agent'', Fixed ''Generate financial forecasts based on current data'',
         ''forecasting'', ''forecasting''),
      (''alert_agent'', Fixed ''Check for financial risks and opportunities'',
         ''alerts'', ''alerts''),
      (''reporting_agent'', Fixed ''Generate executive financial report'',
         ''report'', ''reporting'')]"

definition transactional_stages :: "stage list" where
  "transactional_stages =
     [(''ocr_agent'', WorkflowRequest, ''ocr_processing'', ''ocr_processing''),
      (''data_sync_agent'', Fixed ''Standardize and validate processed data'',
         ''standardization'', ''standardization''),
      (''accounting_agent'', Fixed ''Create accounting entries from processed data'',
         ''accounting'', ''accounting''),
      (''reconciliation_agent'', Fixed ''Reconcile transactions with bank statements'',
         ''reconciliation'', ''reconciliation''),
      (''compliance_agent'', Fixed ''Validate compliance and create audit trail'',
         ''compliance'', ''compliance'')]"

text \<open>
  The blocks in sequence. The agent is called directly, not through \<^verbatim>\<open>_route_to_agent\<close>;
  the counter is neither read nor written. \<open>Inl\<close> is the text of a raised exception,
  which ends the sequence. \<open>now\<close> reads the clock of the world.
\<close>

fun run_stages ::
  "('w \<Rightarrow> int) \<Rightarrow> 'w AgentOrchestrator \<Rightarrow> stage list \<Rightarrow> pyval \<Rightarrow> (string \<times> pyresult) list
     \<Rightarrow> WorkflowState \<Rightarrow> 'w \<Rightarrow> (string + (string \<times> pyresult) list) \<times> WorkflowState \<times> 'w"
  where
  "run_stages now orch [] request results ws w = (Inr results, ws, w)"
| "run_stages now orch ((agent_id, req, key, step) # rest) request results ws w =
     (case agents orch agent_id of
        None \<Rightarrow> run_stages now orch rest request results ws w
      | Some agent \<Rightarrow>
          (case agent (case req of Fixed text \<Rightarrow> PyStr text | WorkflowRequest \<Rightarrow> request)
                  (ws_context ws) (active_agent_count orch) w of
             (Raised e, w') \<Rightarrow> (Inl e, ws, w')
           | (Returned r, w') \<Rightarrow>
               run_stages now orch rest request (AList.update key r results)
                 (complete_step ws step (now w')) w'))"

record orchestrator_result =
  or_success :: bool
  or_error :: "string option"
  or_workflow_type :: "string option"
  or_workflow_id :: "string option"
  or_results :: "(string \<times> pyresult) list option"
  or_completed_steps :: "string list option"

text \<open>
  \<^verbatim>\<open>_execute_advisory_workflow\<close> and \<^verbatim>\<open>_execute_transactional_workflow\<close>, which differ in
  their blocks and in two texts.
\<close>

definition execute_staged_workflow ::
  "string \<Rightarrow> string \<Rightarrow> stage list \<Rightarrow> ('w \<Rightarrow> int) \<Rightarrow> 'w AgentOrchestrator \<Rightarrow> WorkflowState \<Rightarrow> 'w
     \<Rightarrow> orchestrator_result \<times> WorkflowState \<times> 'w" where
  "execute_staged_workflow wtype failure_text stages now orch ws w =
     (case run_stages now orch stages (dict_get (ws_data ws) ''request'' PyNone) [] ws w of
        (Inr results, ws', w') \<Rightarrow>
          (\<lparr> or_success = True, or_error = None, or_workflow_type = Some wtype,
             or_workflow_id = Some (ws_workflow_id ws'), or_results = Some results,
             or_completed_steps = Some (steps_completed ws') \<rparr>, ws', w')
      | (Inl e, ws', w') \<Rightarrow>
          (\<lparr> or_success = False, or_error = Some (failure_text @ e),
             or_workflow_type = None, or_workflow_id = Some (ws_workflow_id ws'),
             or_results = None, or_completed_steps = None \<rparr>, ws', w'))"

definition execute_advisory_workflow ::
  "('w \<Rightarrow> int) \<Rightarrow> 'w AgentOrchestrator \<Rightarrow> WorkflowState \<Rightarrow> 'w
     \<Rightarrow> orchestrator_result \<times> WorkflowState \<times> 'w" where
  "execute_advisory_workflow =
     execute_staged_workflow ''advisory'' ''Advisory workflow failed: '' advisory_stages"

definition execute_transactional_workflow ::
  "('w \<Rightarrow> int) \<Rightarrow> 'w AgentOrchestrator \<Rightarrow> WorkflowState \<Rightarrow> 'w
     \<Rightarrow> orchestrator_result \<times> WorkflowState \<times> 'w" where
  "execute_transactional_workflow =
     execute_staged_workflow ''transactional'' ''Transactional workflow failed: ''
       transactional_stages"

text \<open>
  \<^verbatim>\<open>AgentOrchestrator._route_to_workflow\<close>. \<open>new_id\<close> is the \<^verbatim>\<open>uuid4\<close> of the new workflow
  state. The table \<^verbatim>\<open>active_workflows\<close> holds the state object itself, so its entry shows
  the state as the call leaves it. The function has no statement that removes the entry.
  Nothing inside its \<^verbatim>\<open>try\<close> raises here (both workflows catch their exceptions), so the
  \<^verbatim>\<open>except\<close> branch is not part of the model.
\<close>

definition route_to_workflow ::
  "('w \<Rightarrow> int) \<Rightarrow> 'w AgentOrchestrator \<Rightarrow> string \<Rightarrow> pyval \<Rightarrow> AgentContext \<Rightarrow> string \<Rightarrow> 'w
     \<Rightarrow> orchestrator_result \<times> 'w AgentOrchestrator \<times> 'w" where
  "route_to_workflow now orch workflow_type request context new_id w =
     (let workflow_state =
            \<lparr> ws_workflow_id = new_id, ws_workflow_type = workflow_type,
              current_step = ''start'', steps_completed = [], pending_approvals = [],
              ws_data = [''request'' \<mapsto> request], ws_context = Some context,
              ws_status = PROCESSING, ws_error = None, ws_created_at = now w,
              updated_at = now w \<rparr>;
          (result, ws1, w1) =
            (if workflow_type = ''advisory''
             then execute_advisory_workflow now orch workflow_state w
             else if workflow_type = ''transactional''
             then execute_transactional_workflow now orch workflow_state w
             else (\<lparr> or_success = False,
                      or_error = Some (''Unknown workflow type: '' @ workflow_type),
                      or_workflow_type = None, or_workflow_id = None, or_results = None,
                      or_completed_steps = None \<rparr>, workflow_state, w));
          ws2 = (if or_success result then set_status ws1 COMPLETED (now w1)
                 else set_error ws1
                        (case or_error result of None \<Rightarrow> ''Unknown error'' | Some e \<Rightarrow> e)
                        (now w1))
      in (result, orch \<lparr> active_workflows := (active_workflows orch)(new_id \<mapsto> ws2) \<rparr>, w1))"

section \<open>Context manager (\<^verbatim>\<open>orchestrator/context_manager.py\<close>)\<close>

text \<open>
  A lock is an object. \<open>SessionLock s\<close> is the lock stored in \<^verbatim>\<open>context_locks\<close> for the
  session \<open>s\<close> (a new one is made for every session); \<open>SpareLock\<close> is the new lock that
  \<^verbatim>\<open>self.context_locks.get(session_id, asyncio.Lock())\<close> yields for a session without
  one, numbered by the call that made it. The table of locks is modelled by its keys.
\<close>

datatype lock = SessionLock string | SpareLock nat

datatype lock_event = Acquire lock | Release lock

record ContextManager =
  active_contexts :: "string \<rightharpoonup> AgentContext"
  shared_state :: "string \<rightharpoonup> pydict"
  context_locks :: "string set"

text \<open>The loop \<^verbatim>\<open>for key in keys\<close> that copies the keys present in the source.\<close>

fun copy_keys :: "string list \<Rightarrow> pydict \<Rightarrow> pydict \<Rightarrow> pydict" where
  "copy_keys [] source target = target"
| "copy_keys (key # keys) source target =
     copy_keys keys source
       (case source key of None \<Rightarrow> target | Some v \<Rightarrow> target(key \<mapsto> v))"

text \<open>
  \<^verbatim>\<open>ContextManager.share_context_data\<close>, called while no lock is held: the returned flag,
  the manager after the call and the lock events of the call in their order.
  \<^verbatim>\<open>asyncio.Lock\<close> is not reentrant, so when both sessions yield the same lock the inner
  \<^verbatim>\<open>async with\<close> waits forever and the call does not return (\<open>None\<close>).
\<close>

definition share_context_data ::
  "ContextManager \<Rightarrow> string \<Rightarrow> string \<Rightarrow> string list option
     \<Rightarrow> (bool \<times> ContextManager \<times> lock_event list) option" where
  "share_context_data cm source_session_id target_session_id keys =
     (case (active_contexts cm source_session_id, active_contexts cm target_session_id) of
        (Some source_context, Some target_context) \<Rightarrow>
          (let source_lock = (if source_session_id \<in> context_locks cm
                              then SessionLock source_session_id else SpareLock 0);
               target_lock = (if target_session_id \<in> context_locks cm
                              then SessionLock target_session_id else SpareLock 1);
               state' = (case keys of
                           None \<Rightarrow> ctx_state target_context ++ ctx_state source_context
                         | Some ks \<Rightarrow>
                             if ks = []
                             then ctx_state target_context ++ ctx_state source_context
                             else copy_keys ks (ctx_state source_context)
                                    (ctx_state target_context))
           in if source_lock = target_lock then None
              else Some (True,
                         cm \<lparr> active_contexts := (active_contexts cm)
                                 (target_session_id \<mapsto> target_context \<lparr> ctx_state := state' \<rparr>) \<rparr>,
                         [Acquire source_lock, Acquire target_lock,
                          Release target_lock, Release source_lock]))
      | _ \<Rightarrow> Some (False, cm, []))"

text \<open>The locks a call acquires, in the order of their acquisition.\<close>

fun acquisitions :: "lock_event list \<Rightarrow> lock list" where
  "acquisitions [] = []"
| "acquisitions (Acquire l # es) = l # acquisitions es"
| "acquisitions (Release l # es) = acquisitions es"

section \<open>Concrete inputs\<close>

definition demo_request :: ApprovalRequest where
  "demo_request =
     \<lparr> ar_id = ''req-1'', ar_workflow_id = ''wf-1'', ar_agent_id = ''workflow_engine'',
       ar_request_type = ''workflow_approval'', ar_description = ''Transaction approval'',
       ar_data = Map.empty, required_approvers = [''financial_manager''], approvals = [],
       ar_status = ''pending'', ar_created_at = 0, expires_at = Some 3600 \<rparr>"

definition demo_state :: WorkflowState where
  "demo_state =
     \<lparr> ws_workflow_id = ''wf-1'', ws_workflow_type = ''transactional'',
       current_step = ''start'', steps_completed = [], pending_approvals = [demo_request],
       ws_data = Map.empty, ws_context = None, ws_status = PROCESSING, ws_error = None,
       ws_created_at = 0, updated_at = 0 \<rparr>"

text \<open>A definition whose only step waits for a step that was never added.\<close>

definition dangling_definition :: WorkflowDefinition where
  "dangling_definition =
     add_step
       (new_definition ''w'' ''Dangling'' ''One step waiting for a missing step'' ''custom'')
       (new_step ''b'' AGENT_TASK ''B'' ''Second step'' (Some ''ai_cfo_agent'') None)
       (Some [''a''])"



definition demo_env :: "decision list \<Rightarrow> nat environment" where
  "demo_env ds =
     \<lparr> clock = int,
       uuid4 = (\<lambda>w. (''req-1'', w)),
       agent_executor = (\<lambda>agent request context w.
          if agent = Some ''forecasting_agent'' then (Raised ''model unavailable'', w)
          else (Returned (Dict [''success'' \<mapsto> PyBool True]), w)),
       sleep = (\<lambda>w. (if w = 0 then ds else [], Suc w)) \<rparr>"

text \<open>An engine with the two built-in definitions and the one above.\<close>

definition demo_engine :: WorkflowEngine where
  "demo_engine =
     \<lparr> workflow_definitions =
         [''advisory'' \<mapsto> advisory_workflow, ''transactional'' \<mapsto> transactional_workflow,
          ''custom'' \<mapsto> dangling_definition],
       active_executions = {} \<rparr>"

definition fresh_state :: "string \<Rightarrow> string list \<Rightarrow> WorkflowState" where
  "fresh_state wtype completed =
     \<lparr> ws_workflow_id = ''wf-1'', ws_workflow_type = wtype, current_step = ''start'',
       steps_completed = completed, pending_approvals = [], ws_data = Map.empty,
       ws_context = None, ws_status = IDLE, ws_error = None, ws_created_at = 0,
       updated_at = 0 \<rparr>"


definition run_summary ::
  "(workflow_result \<times> WorkflowEngine \<times> WorkflowState \<times> 'w \<times> string list) option
     \<Rightarrow> (bool \<times> string option \<times> string list \<times> AgentStatus \<times> string list) option" where
  "run_summary r =
     map_option (\<lambda>(res, engine, ws, w, dispatched).
        (wr_success res, wr_failed_step res, steps_completed ws, ws_status ws, dispatched)) r"




text \<open>A world for the orchestrator: the list of the counter values that the invoked agents
  saw, one entry per invocation; its length serves as the clock. One agent returns a
  dictionary, the other raises.\<close>

definition logging_agent :: "int list agent" where
  "logging_agent request context count w =
     (Returned (Dict [''success'' \<mapsto> PyBool True]), w @ [count])"

definition raising_agent :: "int list agent" where
  "raising_agent request context count w = (Raised ''connection lost'', w @ [count])"

definition demo_orchestrator ::
  "(string \<rightharpoonup> int list agent) \<Rightarrow> int \<Rightarrow> int list AgentOrchestrator" where
  "demo_orchestrator registry n =
     \<lparr> agents = registry, active_workflows = Map.empty, max_concurrent_agents = 1,
       active_agent_count = n \<rparr>"

definition two_agents :: "string \<rightharpoonup> int list agent" where
  "two_agents = [''data_sync_agent'' \<mapsto> logging_agent, ''alert_agent'' \<mapsto> raising_agent]"

text \<open>Status and completed steps of the entry of a workflow id in \<^verbatim>\<open>active_workflows\<close>.\<close>

definition table_entry ::
  "'w AgentOrchestrator \<Rightarrow> string \<Rightarrow> (AgentStatus \<times> string list) option" where
  "table_entry orch wid =
     map_option (\<lambda>ws. (ws_status ws, steps_completed ws)) (active_workflows orch wid)"

definition demo_context :: AgentContext where
  "demo_context =
     \<lparr> ctx_agent_id = ''orchestrator'', ctx_session_id = ''s-1'', ctx_user_id = ''system'',
       ctx_company_id = ''default'', ctx_permissions = [], ctx_state = Map.empty,
       ctx_trace_id = None, ctx_created_at = 0 \<rparr>"

text \<open>A context manager with two sessions, each with its context and its lock.\<close>

definition session_context :: "string \<Rightarrow> pydict \<Rightarrow> AgentContext" where
  "session_context sid st =
     \<lparr> ctx_agent_id = ''ai_cfo_agent'', ctx_session_id = sid, ctx_user_id = ''u-1'',
       ctx_company_id = ''acme'', ctx_permissions = [], ctx_state = st, ctx_trace_id = None,
       ctx_created_at = 0 \<rparr>"

definition demo_manager :: ContextManager where
  "demo_manager =
     \<lparr> active_contexts =
         [''a'' \<mapsto> session_context ''a'' [''budget'' \<mapsto> PyStr ''100''],
          ''b'' \<mapsto> session_context ''b'' Map.empty],
       shared_state = [''acme'' \<mapsto> Map.empty],
       context_locks = {''a'', ''b''} \<rparr>"

text \<open>The locks a call of \<^verbatim>\<open>share_context_data\<close> acquired, in order.\<close>

definition lock_order :: "(bool \<times> ContextManager \<times> lock_event list) option \<Rightarrow> lock list option" where
  "lock_order r = map_option (\<lambda>(ok, cm, events). acquisitions events) r"

definition seen :: "int list \<Rightarrow> int" where
  "seen w = int (length w)"


section \<open>Approval requests\<close>

lemma record_decision_id [simp]: "ar_id (record_decision r approver appr com now) = ar_id r"
  by (simp add: record_decision_def Let_def)

lemma is_approved_status_update [simp]: "is_approved (r \<lparr> ar_status := s \<rparr>) = is_approved r"
  by (simp add: is_approved_def)

lemma record_decision_status:
  "ar_status (record_decision r approver appr com now) =
     (if \<not> appr then ''rejected''
      else if is_approved (record_decision r approver appr com now) then ''approved''
      else ar_status r)"
proof (cases appr)
  case False
  then show ?thesis by (simp add: record_decision_def Let_def)
next
  case True
  then show ?thesis by (simp add: record_decision_def Let_def)
qed

lemma approve_in_list_no_match:
  "list_all (\<lambda>r. ar_id r \<noteq> request_id) rs \<Longrightarrow>
     approve_in_list rs request_id approver appr com now = None"
  by (induction rs) auto

lemma approve_in_list_match:
  "find (\<lambda>r. ar_id r = request_id) rs = Some r \<Longrightarrow>
     \<exists>rs'. approve_in_list rs request_id approver appr com now = Some rs' \<and>
           find (\<lambda>r. ar_id r = request_id) rs' =
             Some (record_decision r approver appr com now)"
  by (induction rs) (auto split: if_splits)

lemma approve_in_list_length:
  "approve_in_list rs request_id approver appr com now = Some rs' \<Longrightarrow> length rs' = length rs"
  by (induction rs arbitrary: rs') (auto split: if_splits option.splits)

text \<open>
  C10. When no request of \<^verbatim>\<open>pending_approvals\<close> has the given id, \<^verbatim>\<open>approve_request\<close>
  returns \<^verbatim>\<open>False\<close> and the workflow state after the call is the state before it:
  no approval is recorded, no status changes and \<^verbatim>\<open>updated_at\<close> keeps its value.
\<close>

theorem approve_request_unknown_id:
  assumes "list_all (\<lambda>r. ar_id r \<noteq> request_id) (pending_approvals ws)"
  shows "approve_request ws request_id approver appr com now = (False, ws)"
  using assms by (simp add: approve_request_def approve_in_list_no_match)

theorem approve_request_unknown_id_witness:
  "list_all (\<lambda>r. ar_id r \<noteq> ''req-2'') (pending_approvals demo_state) \<and>
   approve_request demo_state ''req-2'' ''financial_manager'' True None 5 = (False, demo_state)"
  using approve_request_unknown_id [of "''req-2''" demo_state "''financial_manager''" True None 5]
  by (simp add: demo_state_def demo_request_def)

text \<open>
  C6, as stated, fails: the financial manager rejects the request, which sets the
  status to rejected, and then approves it; the second call finds every required approver
  among the approving entries and sets the status to approved.
\<close>

theorem rejected_request_becomes_approved:
  "map ar_status (pending_approvals (snd
     (approve_request demo_state ''req-1'' ''financial_manager'' False None 5)))
     = [''rejected''] \<and>
   map ar_status (pending_approvals (snd
     (approve_request
       (snd (approve_request demo_state ''req-1'' ''financial_manager'' False None 5))
       ''req-1'' ''financial_manager'' True None 6)))
     = [''approved'']"
  by (simp add: approve_request_def record_decision_def is_approved_def demo_state_def
      demo_request_def)

text \<open>
  C6, amended. A decision recorded on the first request with the given id sets its status
  from that decision alone, whatever the status was: rejected when the decision is a
  rejection, approved when it is an approval after which every required approver has
  approved, and the previous status otherwise. So a rejection makes the request rejected
  at once, and a later completing approval makes it approved again.
\<close>

theorem approve_request_last_decision_wins:
  assumes "find (\<lambda>r. ar_id r = request_id) (pending_approvals ws) = Some r"
  shows "\<exists>ws' r'. approve_request ws request_id approver appr com now = (True, ws') \<and>
           find (\<lambda>r. ar_id r = request_id) (pending_approvals ws') = Some r' \<and>
           approvals r' = approvals r @
             [\<lparr> approver_id = approver, approved = appr, comments = com, timestamp = now \<rparr>] \<and>
           ar_status r' =
             (if \<not> appr then ''rejected''
              else if is_approved r' then ''approved''
              else ar_status r)"
proof -
  from approve_in_list_match [OF assms, of approver appr com now]
  obtain rs' where rs': "approve_in_list (pending_approvals ws) request_id approver appr com now = Some rs'"
    and f: "find (\<lambda>r. ar_id r = request_id) rs' = Some (record_decision r approver appr com now)"
    by blast
  have a: "approvals (record_decision r approver appr com now) = approvals r @
             [\<lparr> approver_id = approver, approved = appr, comments = com, timestamp = now \<rparr>]"
    by (simp add: record_decision_def Let_def)
  show ?thesis
    using rs' f a record_decision_status [of r approver appr com now]
    by (simp add: approve_request_def)
qed

theorem approve_request_last_decision_wins_witness:
  "find (\<lambda>r. ar_id r = ''req-1'') (pending_approvals demo_state) = Some demo_request \<and>
   (\<exists>ws' r'. approve_request demo_state ''req-1'' ''auditor'' False None 7 = (True, ws') \<and>
      find (\<lambda>r. ar_id r = ''req-1'') (pending_approvals ws') = Some r' \<and>
      approvals r' = approvals demo_request @
        [\<lparr> approver_id = ''auditor'', approved = False, comments = None, timestamp = 7 \<rparr>] \<and>
      ar_status r' = ''rejected'')"
proof -
  have h: "find (\<lambda>r. ar_id r = ''req-1'') (pending_approvals demo_state) = Some demo_request"
    by (simp add: demo_state_def demo_request_def)
  show ?thesis
    using h approve_request_last_decision_wins [OF h, of "''auditor''" False None 7]
    by simp
qed

section \<open>Ready steps\<close>

lemma is_ready_iff:
  "is_ready d completed sid \<longleftrightarrow> sid \<notin> set completed \<and> set (deps_of d sid) \<subseteq> set completed"
  by (auto simp: is_ready_def list_all_iff)

lemma ready_loop_registered:
  "list_all (\<lambda>sid. case steps d sid of None \<Rightarrow> False | Some st \<Rightarrow> step_id st = sid) order \<Longrightarrow>
     \<exists>ready. ready_loop d completed order acc = Inr (acc @ ready) \<and>
        map step_id ready = filter (is_ready d completed) order \<and>
        list_all (\<lambda>st. steps d (step_id st) = Some st) ready"
proof (induction order arbitrary: acc)
  case Nil
  then show ?case by simp
next
  case (Cons sid rest)
  then obtain st where st: "steps d sid = Some st" "step_id st = sid"
    by (auto split: option.splits)
  from Cons have rest: "list_all (\<lambda>sid. case steps d sid of None \<Rightarrow> False | Some st \<Rightarrow> step_id st = sid) rest"
    by simp
  show ?case
  proof (cases "is_ready d completed sid")
    case True
    from Cons.IH [OF rest, of "acc @ [st]"] obtain ready where
      r: "ready_loop d completed rest (acc @ [st]) = Inr ((acc @ [st]) @ ready)"
         "map step_id ready = filter (is_ready d completed) rest"
         "list_all (\<lambda>st. steps d (step_id st) = Some st) ready"
      by blast
    have "ready_loop d completed (sid # rest) acc = Inr (acc @ (st # ready))"
      using True st r(1) by (simp add: is_ready_def)
    moreover have "map step_id (st # ready) = filter (is_ready d completed) (sid # rest)"
      using True st r(2) by simp
    moreover have "list_all (\<lambda>st. steps d (step_id st) = Some st) (st # ready)"
      using st r(3) by simp
    ultimately show ?thesis by blast
  next
    case False
    from Cons.IH [OF rest, of acc] obtain ready where
      r: "ready_loop d completed rest acc = Inr (acc @ ready)"
         "map step_id ready = filter (is_ready d completed) rest"
         "list_all (\<lambda>st. steps d (step_id st) = Some st) ready"
      by blast
    have "ready_loop d completed (sid # rest) acc = Inr (acc @ ready)"
      using False r(1) by (auto simp: is_ready_def)
    moreover have "map step_id ready = filter (is_ready d completed) (sid # rest)"
      using False r(2) by simp
    ultimately show ?thesis using r(3) by blast
  qed
qed

lemma get_ready_steps_registered:
  assumes "registered d"
  shows "\<exists>ready. get_ready_steps d completed = Inr ready \<and>
        map step_id ready = filter (is_ready d completed) (step_order d) \<and>
        list_all (\<lambda>st. steps d (step_id st) = Some st) ready"
  using ready_loop_registered [of d "step_order d" completed "[]"] assms
  by (simp add: registered_def get_ready_steps_def)

lemma mark_complete_fresh:
  "distinct (map step_id ready) \<Longrightarrow> set (map step_id ready) \<inter> set completed = {} \<Longrightarrow>
     mark_complete completed ready = completed @ map step_id ready"
  by (induction ready arbitrary: completed) auto

lemma registered_add_step:
  "registered d \<Longrightarrow> registered (add_step d step deps)"
  by (auto simp: registered_def add_step_def Let_def list_all_iff split: option.splits)

lemma registered_new: "registered (new_definition a b c e)"
  by (simp add: registered_def new_definition_def)


lemma dep_rel_iff:
  "(dep, sid) \<in> dep_rel d \<longleftrightarrow> sid \<in> set (step_order d) \<and> dep \<in> set (deps_of d sid)"
  by (auto simp: dep_rel_def)

lemma no_ready_all_complete:
  assumes cl: "closed_deps d" and ac: "acyclic (dep_rel d)"
    and none: "filter (is_ready d completed) (step_order d) = []"
  shows "set (step_order d) - set completed = {}"
proof (rule ccontr)
  assume ne: "set (step_order d) - set completed \<noteq> {}"
  have "finite (dep_rel d)" by (simp add: dep_rel_def)
  then have "wf (dep_rel d)" using ac by (rule finite_acyclic_wf)
  from ne obtain x where "x \<in> set (step_order d) - set completed" by blast
  with \<open>wf (dep_rel d)\<close> obtain z where z: "z \<in> set (step_order d) - set completed"
    and zmin: "\<And>y. (y, z) \<in> dep_rel d \<Longrightarrow> y \<notin> set (step_order d) - set completed"
    by (rule wfE_min) blast
  have "dep \<in> set completed" if "dep \<in> set (deps_of d z)" for dep
  proof -
    from that z have "(dep, z) \<in> dep_rel d" by (simp add: dep_rel_iff)
    then have "dep \<notin> set (step_order d) - set completed" by (rule zmin)
    moreover from cl z that have "dep \<in> set (step_order d)"
      by (auto simp: closed_deps_def list_all_iff)
    ultimately show ?thesis by simp
  qed
  then have "is_ready d completed z" using z by (simp add: is_ready_iff subset_iff)
  with z have "z \<in> set (filter (is_ready d completed) (step_order d))" by simp
  with none show False by simp
qed

lemma visit_steps_complete:
  assumes reg: "registered d" and dist: "distinct (step_order d)"
    and cl: "closed_deps d" and ac: "acyclic (dep_rel d)"
  shows "distinct completed \<Longrightarrow> set completed \<subseteq> set (step_order d) \<Longrightarrow>
     \<exists>vs. visit_steps d completed visited = Some (visited @ vs) \<and>
          distinct (map step_id vs) \<and>
          set (map step_id vs) = set (step_order d) - set completed"
proof (induction "card (set (step_order d) - set completed)" arbitrary: completed visited
    rule: less_induct)
  case less
  from get_ready_steps_registered [OF reg, of completed] obtain ready where
    g: "get_ready_steps d completed = Inr ready"
    and ids: "map step_id ready = filter (is_ready d completed) (step_order d)"
    by blast
  show ?case
  proof (cases "ready = []")
    case True
    with ids have "filter (is_ready d completed) (step_order d) = []" by simp
    with cl ac have "set (step_order d) - set completed = {}" by (rule no_ready_all_complete)
    moreover have "visit_steps d completed visited = Some visited"
      using g True by (subst visit_steps.simps) simp
    ultimately show ?thesis by simp
  next
    case False
    let ?ids = "map step_id ready"
    let ?c = "completed @ ?ids"
    have d_ids: "distinct ?ids" using dist ids by simp
    have sub: "set ?ids \<subseteq> set (step_order d) - set completed"
      unfolding ids by (auto simp: is_ready_iff)
    then have disj: "set ?ids \<inter> set completed = {}" by blast
    have mc: "mark_complete completed ready = ?c"
      using d_ids disj by (rule mark_complete_fresh)
    have ne: "set ?ids \<noteq> {}" using False by simp
    from False obtain st where "st \<in> set ready" by (cases ready) auto
    then have x: "step_id st \<in> set ?ids" by simp
    define x where "x = step_id st"
    note x = x [folded x_def]
    with sub have "x \<in> set (step_order d) - set completed" by blast
    moreover from x have "x \<notin> set (step_order d) - set ?c" by simp
    ultimately have "set (step_order d) - set ?c \<noteq> set (step_order d) - set completed"
      by blast
    then have "set (step_order d) - set ?c \<subset> set (step_order d) - set completed"
      by auto
    then have "card (set (step_order d) - set ?c) < card (set (step_order d) - set completed)"
      by (intro psubset_card_mono) simp_all
    moreover have "distinct ?c" using less.prems(1) d_ids disj by auto
    moreover have "set ?c \<subseteq> set (step_order d)" using less.prems(2) sub by auto
    ultimately obtain vs where
      v: "visit_steps d ?c (visited @ ready) = Some ((visited @ ready) @ vs)"
      and dv: "distinct (map step_id vs)"
      and sv: "set (map step_id vs) = set (step_order d) - set ?c"
      using less.hyps [of ?c "visited @ ready"] by blast
    have "visit_steps d completed visited = Some (visited @ (ready @ vs))"
      using g False mc v by (subst visit_steps.simps) simp
    moreover have "distinct (map step_id (ready @ vs))"
      using d_ids dv sv by auto
    moreover have "set (map step_id (ready @ vs)) = set (step_order d) - set completed"
      using sv sub by auto
    ultimately show ?thesis by blast
  qed
qed

lemma acyclic_by_rank:
  fixes f :: "'a \<Rightarrow> nat"
  assumes "\<And>a b. (a, b) \<in> r \<Longrightarrow> f a < f b"
  shows "acyclic r"
proof -
  have "r \<subseteq> measure f" using assms by auto
  then have "wf r" by (rule wf_subset [OF wf_measure])
  then show ?thesis by (rule wf_acyclic)
qed

lemma advisory_acyclic: "acyclic (dep_rel advisory_workflow)"
proof -
  have "dep_rel advisory_workflow =
     {(''data_sync'', ''financial_analysis''), (''financial_analysis'', ''forecasting''),
      (''financial_analysis'', ''risk_assessment''), (''forecasting'', ''executive_reporting''),
      (''risk_assessment'', ''executive_reporting'')}"
    by (simp add: advisory_workflow_def add_step_def new_definition_def new_step_def
      dep_rel_def deps_of_def)
  then show ?thesis
    by (intro acyclic_by_rank [where f = "\<lambda>s. if s = ''data_sync'' then 0
          else if s = ''financial_analysis'' then 1
          else if s = ''executive_reporting'' then 3 else 2"]) auto
qed

lemma advisory_well_formed:
  "registered advisory_workflow \<and> closed_deps advisory_workflow \<and>
   distinct (step_order advisory_workflow)"
  by (simp add: advisory_workflow_def add_step_def new_definition_def new_step_def
      registered_def closed_deps_def deps_of_def)

text \<open>
  C2, as stated, fails in its second half: a definition may be acyclic and still name a
  prerequisite that is no step. Its step is never ready, so the walk ends at once and
  visits nothing.
\<close>

theorem acyclic_definition_never_visited:
  "acyclic (dep_rel dangling_definition) \<and> step_order dangling_definition = [''b''] \<and>
   get_ready_steps dangling_definition [] = Inr [] \<and>
   visit_steps dangling_definition [] [] = Some []"
proof -
  have "get_ready_steps dangling_definition [] = Inr []"
    by (simp add: dangling_definition_def add_step_def new_definition_def new_step_def
      get_ready_steps_def deps_of_def)
  moreover from this have "visit_steps dangling_definition [] [] = Some []"
    by (subst visit_steps.simps) simp
  moreover have "dep_rel dangling_definition = {(''a'', ''b'')}"
    by (simp add: dangling_definition_def add_step_def new_definition_def new_step_def
      dep_rel_def deps_of_def)
  then have "acyclic (dep_rel dangling_definition)"
    by (intro acyclic_by_rank [where f = "\<lambda>s. if s = ''a'' then 0 else 1"]) auto
  moreover have "step_order dangling_definition = [''b'']"
    by (simp add: dangling_definition_def add_step_def new_definition_def new_step_def)
  ultimately show ?thesis by simp
qed

text \<open>
  C2, amended. For a definition whose ids all have their step stored (every definition
  built by \<^verbatim>\<open>add_step\<close>) and every list of completed ids, \<^verbatim>\<open>get_ready_steps\<close> returns,
  in the order of \<^verbatim>\<open>step_order\<close>, exactly the steps that are not completed and whose
  prerequisites are all completed. If moreover the ids are pairwise distinct, every
  prerequisite names a step of the definition and the prerequisite relation is acyclic,
  then taking the ready set and marking its steps complete, repeatedly from the empty
  list, ends and visits every step exactly once.
\<close>

theorem ready_steps_exact_and_walk_visits_once:
  assumes "registered d"
  shows "(\<exists>ready. get_ready_steps d completed = Inr ready \<and>
            map step_id ready =
              filter (\<lambda>sid. sid \<notin> set completed \<and> set (deps_of d sid) \<subseteq> set completed)
                (step_order d) \<and>
            list_all (\<lambda>st. steps d (step_id st) = Some st) ready) \<and>
         (distinct (step_order d) \<and> closed_deps d \<and> acyclic (dep_rel d) \<longrightarrow>
            (\<exists>vs. visit_steps d [] [] = Some vs \<and> distinct (map step_id vs) \<and>
                  set (map step_id vs) = set (step_order d)))"
proof
  have "is_ready d completed =
      (\<lambda>sid. sid \<notin> set completed \<and> set (deps_of d sid) \<subseteq> set completed)"
    by (rule ext) (rule is_ready_iff)
  with get_ready_steps_registered [OF assms, of completed]
  show "\<exists>ready. get_ready_steps d completed = Inr ready \<and>
            map step_id ready =
              filter (\<lambda>sid. sid \<notin> set completed \<and> set (deps_of d sid) \<subseteq> set completed)
                (step_order d) \<and>
            list_all (\<lambda>st. steps d (step_id st) = Some st) ready"
    by simp
next
  show "distinct (step_order d) \<and> closed_deps d \<and> acyclic (dep_rel d) \<longrightarrow>
            (\<exists>vs. visit_steps d [] [] = Some vs \<and> distinct (map step_id vs) \<and>
                  set (map step_id vs) = set (step_order d))"
  proof
    assume h: "distinct (step_order d) \<and> closed_deps d \<and> acyclic (dep_rel d)"
    then have "\<exists>vs. visit_steps d [] [] = Some ([] @ vs) \<and> distinct (map step_id vs) \<and>
        set (map step_id vs) = set (step_order d) - set []"
      using assms by (intro visit_steps_complete) simp_all
    then show "\<exists>vs. visit_steps d [] [] = Some vs \<and> distinct (map step_id vs) \<and>
        set (map step_id vs) = set (step_order d)"
      by simp
  qed
qed

theorem ready_steps_exact_and_walk_visits_once_witness:
  "registered advisory_workflow \<and> distinct (step_order advisory_workflow) \<and>
   closed_deps advisory_workflow \<and> acyclic (dep_rel advisory_workflow) \<and>
   (\<exists>ready. get_ready_steps advisory_workflow [''data_sync''] = Inr ready \<and>
      map step_id ready = [''financial_analysis'']) \<and>
   (\<exists>vs. visit_steps advisory_workflow [] [] = Some vs \<and> distinct (map step_id vs) \<and>
      set (map step_id vs) = set (step_order advisory_workflow))"
proof -
  have r: "registered advisory_workflow" using advisory_well_formed by simp
  have f: "filter (\<lambda>sid. sid \<notin> set [''data_sync''] \<and>
              set (deps_of advisory_workflow sid) \<subseteq> set [''data_sync''])
            (step_order advisory_workflow) = [''financial_analysis'']"
    by (auto simp: advisory_workflow_def add_step_def new_definition_def new_step_def
      deps_of_def)
  show ?thesis
    using ready_steps_exact_and_walk_visits_once [OF r, of "[''data_sync'']"]
      advisory_well_formed advisory_acyclic f
    by auto
qed

section \<open>Workflow engine\<close>

lemma approve_request_steps_completed [simp]:
  "steps_completed (snd (approve_request ws rid a b c now)) = steps_completed ws"
  by (simp add: approve_request_def split: option.splits)

lemma approve_request_length [simp]:
  "length (pending_approvals (snd (approve_request ws rid a b c now))) =
     length (pending_approvals ws)"
  by (auto simp: approve_request_def approve_in_list_length split: option.splits)

lemma apply_decisions_steps_completed [simp]:
  "steps_completed (apply_decisions ws ds) = steps_completed ws"
  by (induction ds arbitrary: ws) simp_all

lemma apply_decisions_length [simp]:
  "length (pending_approvals (apply_decisions ws ds)) = length (pending_approvals ws)"
  by (induction ds arbitrary: ws) simp_all









lemma complete_step_set [simp]:
  "set (steps_completed (complete_step ws sid now)) = insert sid (set (steps_completed ws))"
  by (auto simp: complete_step_def)


lemma process_results_return:
  "process_results results ws now = Inl (res, ws') \<Longrightarrow>
     \<not> wr_success res \<and>
     (\<exists>f. wr_failed_step res = Some f \<and> f \<in> fst ` set results \<and>
        (distinct (map fst results) \<and> f \<notin> set (steps_completed ws)
           \<longrightarrow> f \<notin> set (steps_completed ws'))) \<and>
     set (steps_completed ws) \<subseteq> set (steps_completed ws') \<and>
     set (steps_completed ws') \<subseteq> set (steps_completed ws) \<union> fst ` set results"
proof (induction results arbitrary: ws)
  case Nil
  then show ?case by simp
next
  case (Cons p results)
  obtain sid r where p: "p = (sid, r)" by (cases p)
  show ?case
  proof (cases "truthy (dict_get r ''success'' (PyBool False))")
    case True
    with Cons.prems p have "process_results results (complete_step ws sid now) now = Inl (res, ws')"
      by simp
    from Cons.IH [OF this] show ?thesis using p by force
  next
    case False
    with Cons.prems p show ?thesis by (auto simp: Let_def set_error_def)
  qed
qed



lemma workflow_loop_break:
  assumes "workflow_loop env d ws w disp = Some y"
  shows "fst y = Break \<longrightarrow> get_ready_steps d (steps_completed (fst (snd y))) = Inr []"
proof (rule workflow_loop.raw_induct
    [where P = "\<lambda>env d ws w disp y.
       fst y = Break \<longrightarrow> get_ready_steps d (steps_completed (fst (snd y))) = Inr []",
     OF _ assms],
    goal_cases)
  case (1 f env d ws w disp y)
  show ?case
  proof (cases "get_ready_steps d (steps_completed ws)")
    case (Inl e)
    with 1(2) show ?thesis by auto
  next
    case (Inr ready)
    show ?thesis
    proof (cases "ready = []")
      case True
      with 1(2) Inr show ?thesis by auto
    next
      case False
      with 1(2) Inr obtain results ws1 w1 where
        e: "execute_steps env ready ws w = Some (results, ws1, w1)"
        by (auto split: option.splits)
      show ?thesis
      proof (cases "process_results results ws1 (clock env w1)")
        case (Inl a)
        with 1(2) Inr False e show ?thesis by (auto split: prod.splits)
      next
        case (Inr ws2)
        with 1(2) \<open>get_ready_steps d (steps_completed ws) = Inr ready\<close> False e
        have "f env d ws2 w1 (disp @ map step_id (make_tasks ready)) = Some y" by simp
        from 1(1) [OF this] show ?thesis .
      qed
    qed
  qed
qed






lemma set_status_fields [simp]:
  "steps_completed (set_status ws st now) = steps_completed ws"
  "ws_status (set_status ws st now) = st"
  "ws_workflow_id (set_status ws st now) = ws_workflow_id ws"
  by (simp_all add: set_status_def)

lemma set_error_fields [simp]:
  "steps_completed (set_error ws msg now) = steps_completed ws"
  "ws_status (set_error ws msg now) = ERROR"
  by (simp_all add: set_error_def)

lemma workflow_loop_empty_ready:
  "get_ready_steps d (steps_completed ws) = Inr [] \<Longrightarrow>
     workflow_loop env d ws w dispatched = Some (Break, ws, w, dispatched)"
  by (subst workflow_loop.simps) simp

lemma workflow_loop_return:
  assumes "workflow_loop env d ws w disp = Some y"
  shows "\<forall>r. fst y = Return r \<longrightarrow> \<not> wr_success r"
proof (rule workflow_loop.raw_induct
    [where P = "\<lambda>env d ws w disp y. \<forall>r. fst y = Return r \<longrightarrow> \<not> wr_success r",
     OF _ assms],
    goal_cases)
  case (1 f env d ws w disp y)
  show ?case
  proof (cases "get_ready_steps d (steps_completed ws)")
    case (Inl e)
    with 1(2) show ?thesis by auto
  next
    case (Inr ready)
    note g = this
    show ?thesis
    proof (cases "ready = []")
      case True
      with 1(2) g show ?thesis by auto
    next
      case False
      with 1(2) g obtain results ws1 w1 where
        e: "execute_steps env ready ws w = Some (results, ws1, w1)"
        by (auto split: option.splits)
      show ?thesis
      proof (cases "process_results results ws1 (clock env w1)")
        case (Inl a)
        obtain res ws2 where a: "a = (res, ws2)" by (cases a)
        from process_results_return [OF Inl [unfolded a]] have "\<not> wr_success res" by simp
        with Inl a 1(2) g False e show ?thesis by auto
      next
        case (Inr ws2)
        with 1(2) g False e
        have "f env d ws2 w1 (disp @ map step_id (make_tasks ready)) = Some y" by simp
        from 1(1) [OF this] show ?thesis .
      qed
    qed
  qed
qed

lemma after_layers_same_result:
  "after_layers n env d ws w dispatched = Some (ws', w', dispatched') \<Longrightarrow>
     workflow_loop env d ws w dispatched = workflow_loop env d ws' w' dispatched'"
proof (induction n arbitrary: ws w dispatched)
  case 0
  then show ?case by simp
next
  case (Suc n)
  from Suc.prems obtain ready where g: "get_ready_steps d (steps_completed ws) = Inr ready"
    and ne: "ready \<noteq> []"
    by (auto split: sum.splits if_splits)
  from Suc.prems g ne obtain results ws1 w1 where
    e: "execute_steps env ready ws w = Some (results, ws1, w1)"
    by (auto split: option.splits)
  from Suc.prems g ne e obtain ws2 where
    p: "process_results results ws1 (clock env w1) = Inr ws2"
    by (auto split: sum.splits)
  from Suc.prems g ne e p
  have "after_layers n env d ws2 w1 (dispatched @ map step_id (make_tasks ready))
      = Some (ws', w', dispatched')" by simp
  from Suc.IH [OF this]
  have "workflow_loop env d ws2 w1 (dispatched @ map step_id (make_tasks ready))
      = workflow_loop env d ws' w' dispatched'" .
  moreover have "workflow_loop env d ws w dispatched
      = workflow_loop env d ws2 w1 (dispatched @ map step_id (make_tasks ready))"
    using g ne e p by (subst workflow_loop.simps) simp
  ultimately show ?case by simp
qed


lemma empty_ready_success:
  assumes defs: "workflow_definitions engine wtype = Some d"
    and al: "after_layers n env d (set_status ws PROCESSING (clock env w)) w []
               = Some (ws1, w1, dispatched)"
    and g: "get_ready_steps d (steps_completed ws1) = Inr []"
  shows "\<exists>res engine' ws'.
           execute_workflow engine env wtype ws w = Some (res, engine', ws', w1, dispatched) \<and>
           wr_success res \<and> wr_error res = None \<and> wr_failed_step res = None \<and>
           wr_completed_steps res = Some (steps_completed ws1) \<and>
           steps_completed ws' = steps_completed ws1 \<and> ws_status ws' = COMPLETED"
proof -
  from after_layers_same_result [OF al] workflow_loop_empty_ready [OF g, of env w1 dispatched]
  have "workflow_loop env d (set_status ws PROCESSING (clock env w)) w [] =
      Some (Break, ws1, w1, dispatched)"
    by simp
  then show ?thesis
    using defs by (simp add: execute_workflow_def Let_def)
qed

lemma success_only_on_empty_ready:
  assumes defs: "workflow_definitions engine wtype = Some d"
    and run: "execute_workflow engine env wtype ws w = Some (res, engine', ws', w', tr)"
    and succ: "wr_success res"
  shows "get_ready_steps d (steps_completed ws') = Inr [] \<and> ws_status ws' = COMPLETED \<and>
            wr_completed_steps res = Some (steps_completed ws')"
proof -
  let ?ws1 = "set_status ws PROCESSING (clock env w)"
  from run defs obtain ex ws2 where
    l: "workflow_loop env d ?ws1 w [] = Some (ex, ws2, w', tr)"
    by (auto simp: execute_workflow_def Let_def split: option.splits loop_exit.splits)
  show ?thesis
  proof (cases ex)
    case Break
    from workflow_loop_break [OF l] Break
    have "get_ready_steps d (steps_completed ws2) = Inr []" by simp
    moreover from run defs l Break have "ws' = set_status ws2 COMPLETED (clock env w')"
      and "wr_completed_steps res = Some (steps_completed ws2)"
      by (auto simp: execute_workflow_def Let_def)
    ultimately show ?thesis by simp
  next
    case (Return r)
    with run defs l have r: "res = r" by (simp add: execute_workflow_def Let_def)
    from l have "workflow_loop env d ?ws1 w [] = Some (Return r, ws2, w', tr)"
      using Return by simp
    from workflow_loop_return [OF this] have "\<not> wr_success r" by simp
    with succ r show ?thesis by simp
  next
    case (Raise e)
    with run succ defs l show ?thesis by (auto simp: execute_workflow_def Let_def)
  qed
qed

text \<open>
  C1, amended. For a workflow type with a definition: whenever a run comes, after any
  number of layers, to a state in which \<^verbatim>\<open>get_ready_steps\<close> returns the empty list,
  \<^verbatim>\<open>execute_workflow\<close> returns a success with the status COMPLETED and the completed
  steps as they stand, whether or not they cover the steps of the definition; and
  \<^verbatim>\<open>execute_workflow\<close> reports a success only in this way, with the ready set of the
  final state empty. The engine has no failure for a run that cannot make progress.
\<close>

theorem empty_ready_set_reports_success:
  assumes defs: "workflow_definitions engine wtype = Some d"
  shows "(after_layers n env d (set_status ws PROCESSING (clock env w)) w []
            = Some (ws1, w1, dispatched) \<and>
          get_ready_steps d (steps_completed ws1) = Inr [] \<longrightarrow>
            (\<exists>res engine' ws'.
               execute_workflow engine env wtype ws w
                 = Some (res, engine', ws', w1, dispatched) \<and>
               wr_success res \<and> wr_error res = None \<and> wr_failed_step res = None \<and>
               wr_completed_steps res = Some (steps_completed ws1) \<and>
               steps_completed ws' = steps_completed ws1 \<and> ws_status ws' = COMPLETED)) \<and>
         (execute_workflow engine env wtype ws w = Some (res, engine', ws', w', tr) \<and>
          wr_success res \<longrightarrow>
            get_ready_steps d (steps_completed ws') = Inr [] \<and> ws_status ws' = COMPLETED \<and>
            wr_completed_steps res = Some (steps_completed ws'))"
  (is "?P1 \<and> ?P2")
proof -
  have ?P1 by (rule impI, elim conjE, rule empty_ready_success [OF defs])
  moreover have ?P2 by (rule impI, elim conjE, rule success_only_on_empty_ready [OF defs])
  ultimately show ?thesis by (rule conjI)
qed

lemma raised_step_is_failed:
  assumes "fst (agent_executor env (step_agent_id st)
                  \<lparr> sr_step_name = step_name st, sr_step_description = step_description st,
                    sr_parameters = parameters st, sr_workflow_data = ws_data ws \<rparr>
                  (ws_context ws) w) = Raised e"
  shows "step_failed (step_id st, fst (execute_agent_step env st ws w))"
  using assms
  by (auto simp: execute_agent_step_def step_failed_def failure_result_def dict_get_def Let_def
      split: prod.splits)








lemma demo_engine_definitions:
  "workflow_definitions demo_engine ''custom'' = Some dangling_definition"
  "workflow_definitions demo_engine ''advisory'' = Some advisory_workflow"
  "workflow_definitions demo_engine ''transactional'' = Some transactional_workflow"
  by (simp_all add: demo_engine_def)

text \<open>
  C1, as stated, fails: the only step of this definition waits for a step that does not
  exist, so the first ready set is empty while no step is completed; the run ends as a
  success with the status COMPLETED, no failed step, and nothing dispatched.
\<close>

theorem stuck_workflow_reported_as_success:
  "step_order dangling_definition = [''b''] \<and>
   get_ready_steps dangling_definition [] = Inr [] \<and>
   run_summary (execute_workflow demo_engine (demo_env []) ''custom'' (fresh_state ''custom'' []) 0)
     = Some (True, None, [], COMPLETED, [])"
proof -
  have "step_order dangling_definition = [''b'']"
    by (simp add: dangling_definition_def add_step_def new_definition_def new_step_def)
  moreover have "get_ready_steps dangling_definition [] = Inr []"
    by (simp add: dangling_definition_def add_step_def new_definition_def new_step_def
      get_ready_steps_def deps_of_def)
  moreover have "run_summary
      (execute_workflow demo_engine (demo_env []) ''custom'' (fresh_state ''custom'' []) 0)
     = Some (True, None, [], COMPLETED, [])"
    by code_simp
  ultimately show ?thesis by simp
qed

text \<open>
  The amended C1 at the definition with the missing prerequisite.
\<close>

theorem empty_ready_set_reports_success_witness:
  "workflow_definitions demo_engine ''custom'' = Some dangling_definition \<and>
   after_layers 0 (demo_env []) dangling_definition
       (set_status (fresh_state ''custom'' []) PROCESSING (clock (demo_env []) 0)) 0 []
     = Some (set_status (fresh_state ''custom'' []) PROCESSING (clock (demo_env []) 0), 0, []) \<and>
   get_ready_steps dangling_definition
       (steps_completed (set_status (fresh_state ''custom'' []) PROCESSING
          (clock (demo_env []) 0))) = Inr [] \<and>
   (\<exists>res engine' ws'.
      execute_workflow demo_engine (demo_env []) ''custom'' (fresh_state ''custom'' []) 0
        = Some (res, engine', ws', 0, []) \<and>
      wr_success res \<and> wr_completed_steps res = Some [] \<and> ws_status ws' = COMPLETED \<and>
      get_ready_steps dangling_definition (steps_completed ws') = Inr [])"
proof -
  let ?ws1 = "set_status (fresh_state ''custom'' []) PROCESSING (clock (demo_env []) 0)"
  have d: "workflow_definitions demo_engine ''custom'' = Some dangling_definition"
    by (rule demo_engine_definitions)
  have al: "after_layers 0 (demo_env []) dangling_definition ?ws1 0 [] = Some (?ws1, 0, [])"
    by simp
  have g: "get_ready_steps dangling_definition (steps_completed ?ws1) = Inr []"
    by (simp add: dangling_definition_def add_step_def new_definition_def new_step_def
      get_ready_steps_def deps_of_def fresh_state_def set_status_def)
  from empty_ready_set_reports_success [OF d, THEN conjunct1, rule_format, OF conjI, OF al g]
  obtain res engine' ws' where
    r: "execute_workflow demo_engine (demo_env []) ''custom'' (fresh_state ''custom'' []) 0
        = Some (res, engine', ws', 0, [])"
    and s: "wr_success res" "wr_completed_steps res = Some (steps_completed ?ws1)"
      "ws_status ws' = COMPLETED"
    by blast
  from empty_ready_set_reports_success [OF d, THEN conjunct2, rule_format, OF conjI, OF r s(1)]
  have g': "get_ready_steps dangling_definition (steps_completed ws') = Inr []" by simp
  from s(2) have c: "wr_completed_steps res = Some []"
    by (simp add: fresh_state_def set_status_def)
  from d al g r s(1) c s(3) g' show ?thesis
    by (intro conjI exI) assumption+
qed



section \<open>Approval steps\<close>










section \<open>Orchestrator and context manager\<close>










text \<open>
  C5 fails on the code. With the counter at its maximum, a direct dispatch to
  \<^verbatim>\<open>data_sync_agent\<close> is refused, while the advisory workflow of the same orchestrator
  invokes that agent all the same: the step completes, and the agent saw the counter at
  1, not incremented.
\<close>

theorem workflow_path_ignores_the_cap:
  "route_to_agent (demo_orchestrator [''data_sync_agent'' \<mapsto> logging_agent] 1)
       ''data_sync_agent'' (PyStr ''Sync latest financial data for analysis'') demo_context []
     = (CapacityExceeded (error_response ''Maximum concurrent agents reached'' ''s-1''),
        demo_orchestrator [''data_sync_agent'' \<mapsto> logging_agent] 1, []) \<and>
   or_success (fst (execute_advisory_workflow seen
       (demo_orchestrator [''data_sync_agent'' \<mapsto> logging_agent] 1)
       (fresh_state ''advisory'' []) [])) \<and>
   steps_completed (fst (snd (execute_advisory_workflow seen
       (demo_orchestrator [''data_sync_agent'' \<mapsto> logging_agent] 1)
       (fresh_state ''advisory'' []) []))) = [''data_sync''] \<and>
   snd (snd (execute_advisory_workflow seen
       (demo_orchestrator [''data_sync_agent'' \<mapsto> logging_agent] 1)
       (fresh_state ''advisory'' []) [])) = [1]"
  by (simp add: route_to_agent_def demo_orchestrator_def demo_context_def
      execute_advisory_workflow_def execute_staged_workflow_def advisory_stages_def
      logging_agent_def fresh_state_def complete_step_def)

lemma route_to_workflow_keeps_entry:
  "\<exists>ws'. active_workflows (fst (snd (route_to_workflow now orch wtype request context new_id w)))
            new_id = Some ws' \<and>
         (ws_status ws' = COMPLETED \<or> ws_status ws' = ERROR)"
  by (auto simp: route_to_workflow_def Let_def set_status_def set_error_def split: prod.splits)

lemma engine_clears_entry:
  assumes "workflow_definitions engine wtype = Some d"
    and "execute_workflow engine env wtype ws w = Some (res, engine', ws', w', tr)"
  shows "ws_workflow_id ws \<notin> active_executions engine'"
  using assms
  by (auto simp: execute_workflow_def Let_def split: option.splits loop_exit.splits)

text \<open>
  C8 fails on the code. After \<^verbatim>\<open>_route_to_workflow\<close> has returned, the workflow is still
  in \<^verbatim>\<open>active_workflows\<close>, with the status COMPLETED after a success and ERROR after a
  failure.
\<close>

theorem finished_workflows_stay_in_table:
  "or_success (fst (route_to_workflow seen
       (demo_orchestrator [''data_sync_agent'' \<mapsto> logging_agent] 0)
       ''advisory'' (PyStr ''quarterly review'') demo_context ''wf-1'' [])) \<and>
   table_entry (fst (snd (route_to_workflow seen
       (demo_orchestrator [''data_sync_agent'' \<mapsto> logging_agent] 0)
       ''advisory'' (PyStr ''quarterly review'') demo_context ''wf-1'' []))) ''wf-1''
     = Some (COMPLETED, [''data_sync'']) \<and>
   \<not> or_success (fst (route_to_workflow seen (demo_orchestrator two_agents 0)
       ''advisory'' (PyStr ''quarterly review'') demo_context ''wf-2'' [])) \<and>
   table_entry (fst (snd (route_to_workflow seen (demo_orchestrator two_agents 0)
       ''advisory'' (PyStr ''quarterly review'') demo_context ''wf-2'' []))) ''wf-2''
     = Some (ERROR, [''data_sync''])"
  by (simp add: route_to_workflow_def demo_orchestrator_def demo_context_def two_agents_def
      execute_advisory_workflow_def execute_staged_workflow_def advisory_stages_def
      logging_agent_def raising_agent_def complete_step_def set_status_def set_error_def
      table_entry_def Let_def)


text \<open>
  C9, as stated, fails: sharing from a to b takes the lock of a first, sharing from b to
  a takes the lock of b first.
\<close>

theorem cross_shares_lock_in_opposite_orders:
  "lock_order (share_context_data demo_manager ''a'' ''b'' None)
     = Some [SessionLock ''a'', SessionLock ''b''] \<and>
   lock_order (share_context_data demo_manager ''b'' ''a'' None)
     = Some [SessionLock ''b'', SessionLock ''a'']"
  by (simp add: share_context_data_def demo_manager_def lock_order_def Let_def)

text \<open>
  C9, amended. A share between two different sessions that both have a context and a
  lock acquires the lock of the source first and the lock of the target second, and
  releases them in the reverse order; the order follows the roles, so the share in the
  other direction acquires the same two locks in the opposite order.
\<close>

theorem share_locks_source_then_target:
  assumes "active_contexts cm source = Some source_context"
    and "active_contexts cm target = Some target_context"
    and "source \<in> context_locks cm" and "target \<in> context_locks cm"
    and "source \<noteq> target"
  shows "(\<exists>cm'. share_context_data cm source target keys =
            Some (True, cm',
                  [Acquire (SessionLock source), Acquire (SessionLock target),
                   Release (SessionLock target), Release (SessionLock source)])) \<and>
         lock_order (share_context_data cm source target keys)
           = Some [SessionLock source, SessionLock target] \<and>
         lock_order (share_context_data cm target source keys)
           = Some [SessionLock target, SessionLock source]"
  using assms by (auto simp: share_context_data_def lock_order_def Let_def)

text \<open>
  The amended C9 at the two sessions a and b.
\<close>

theorem share_locks_source_then_target_witness:
  "active_contexts demo_manager ''a'' = Some (session_context ''a'' [''budget'' \<mapsto> PyStr ''100'']) \<and>
   active_contexts demo_manager ''b'' = Some (session_context ''b'' Map.empty) \<and>
   ''a'' \<in> context_locks demo_manager \<and> ''b'' \<in> context_locks demo_manager \<and> ''a'' \<noteq> ''b'' \<and>
   (\<exists>cm'. share_context_data demo_manager ''a'' ''b'' (Some [''budget'']) =
            Some (True, cm',
                  [Acquire (SessionLock ''a''), Acquire (SessionLock ''b''),
                   Release (SessionLock ''b''), Release (SessionLock ''a'')])) \<and>
   lock_order (share_context_data demo_manager ''a'' ''b'' (Some [''budget'']))
     = Some [SessionLock ''a'', SessionLock ''b''] \<and>
   lock_order (share_context_data demo_manager ''b'' ''a'' (Some [''budget'']))
     = Some [SessionLock ''b'', SessionLock ''a'']"
proof -
  have h: "active_contexts demo_manager ''a'' = Some (session_context ''a'' [''budget'' \<mapsto> PyStr ''100''])"
    "active_contexts demo_manager ''b'' = Some (session_context ''b'' Map.empty)"
    "''a'' \<in> context_locks demo_manager" "''b'' \<in> context_locks demo_manager" "''a'' \<noteq> ''b''"
    by (simp_all add: demo_manager_def)
  from share_locks_source_then_target [OF h, of "Some [''budget'']"] h
  show ?thesis by simp
qed

end
